theory Spec2Isabelle
  imports Complex_Main "HOL-Library.Sublist"
begin

section \<open>services/api.js: image URLs\<close>

text \<open>
  \<^verbatim>\<open>const API_BASE_URL = process.env.REACT_APP_API_URL || 'http://localhost:8000';\<close>
  The environment variable is absent (\<open>None\<close>) or a string; the JavaScript \<open>||\<close>
  falls back to the default for an absent and for an empty value.
\<close>

definition API_BASE_URL :: "string option \<Rightarrow> string" where
  "API_BASE_URL env =
     (case env of
        None \<Rightarrow> ''http://localhost:8000''
      | Some u \<Rightarrow> (if u = [] then ''http://localhost:8000'' else u))"

text \<open>
  \<^verbatim>\<open>imagePath.startsWith('cameras/') ? imagePath : `cameras/${imagePath}`\<close>:
  the local constant \<open>path\<close> of \<open>getImageURL\<close>.
\<close>

definition image_path :: "string \<Rightarrow> string" where
  "image_path imagePath =
     (if prefix ''cameras/'' imagePath then imagePath else ''cameras/'' @ imagePath)"

definition getImageURL :: "string option \<Rightarrow> string \<Rightarrow> string" where
  "getImageURL env imagePath = API_BASE_URL env @ ''/'' @ image_path imagePath"

section \<open>pages/Dashboard.jsx: chart data\<close>




datatype js_error = TypeError

text \<open>One element of \<open>stats.time_series\<close>, and one point handed to the chart.\<close>

record time_series_item =
  timestamp :: string
  total_people :: int
  people_in_zone :: int

record chart_point =
  time :: string
  Total_People :: int
  In_Zone :: int

text \<open>
  The \<open>stats\<close> object of the component state; the fields the dashboard reads besides
  \<open>time_series\<close> live in the record's extension. A missing or null \<open>time_series\<close> is
  \<open>None\<close>, and so is the state \<open>stats = null\<close> itself.
\<close>

record stats =
  time_series :: "time_series_item list option"







subsection \<open>The compression as the specification words it\<close>





subsection \<open>Decimal numerals and a sample series\<close>

text \<open>\<open>String(n)\<close> for a non-negative integer, and \<open>padStart\<close>.\<close>

definition digit_char :: "nat \<Rightarrow> char" where
  "digit_char d = ''0123456789'' ! d"

fun String :: "nat \<Rightarrow> string" where
  "String n = (if n < 10 then [digit_char n] else String (n div 10) @ [digit_char (n mod 10)])"

declare String.simps [simp del]

definition padStart :: "string \<Rightarrow> nat \<Rightarrow> char \<Rightarrow> string" where
  "padStart s targetLength c = replicate (targetLength - length s) c @ s"


section \<open>Effects of the event handlers\<close>

text \<open>
  What a handler does to the world outside the component state, in the order it does it:
  dialogs, console output, requests to the backend (a request is issued, and later
  settles), and the state setters of the dashboard.
\<close>

datatype js_number = Num rat | NaN | PosInfinity | NegInfinity

datatype effect =
    Alert string
  | Confirm string
  | ConsoleError string
  | ZoneSet int "(rat \<times> rat) list" js_number
  | ZoneGet int
  | CameraGetStats int
  | InferenceGetUnlabeled int
  | ProcessImageIssued int string
  | ProcessImageSettled int string bool
  | LoadDashboardData
  | SetProcessingImages bool
  | SetProcessProgress nat nat string
  | SetLogs_empty
  | SetStats_null

record camera =
  camera_id :: int

section \<open>pages/ZoneDrawer.jsx\<close>

text \<open>
  Coordinates and sizes are exact rationals. \<open>imageObj\<close> (read for its \<open>width\<close> and
  \<open>height\<close>) and \<open>dimensions\<close> are both width-height pairs.
\<close>

record size2d =
  width :: rat
  height :: rat

record zone_config =
  zone_points :: "(rat \<times> rat) list"
  zone_threshold :: js_number

record zd_state =
  selectedCamera :: "camera option"
  imageObj :: "size2d option"
  points :: "(rat \<times> rat) list"
  threshold :: js_number
  isDrawing :: bool
  existingZone :: "zone_config option"
  loading :: bool
  dimensions :: size2d

text \<open>
  How the backend answers: whether \<open>zoneAPI.set\<close> resolves, and what \<open>zoneAPI.get\<close>
  gives (\<open>None\<close>: the request fails; \<open>Some None\<close>: no data; \<open>Some (Some z)\<close>: a zone).
\<close>

record zone_api =
  zone_set_resolves :: bool
  zone_get_response :: "zone_config option option"

text \<open>
  \<open>loadExistingZone\<close>. Reading \<open>selectedCamera.id\<close> of a null camera throws inside the
  \<open>try\<close> block and is caught there.
\<close>

definition loadExistingZone :: "zone_api \<Rightarrow> zd_state \<Rightarrow> zd_state \<times> effect list" where
  "loadExistingZone api s =
     (case selectedCamera s of
        None \<Rightarrow> (s, [ConsoleError ''Error loading zone:''])
      | Some cam \<Rightarrow>
          (case zone_get_response api of
             None \<Rightarrow> (s, [ZoneGet (camera_id cam), ConsoleError ''Error loading zone:''])
           | Some None \<Rightarrow>
               (s\<lparr>existingZone := None, points := []\<rparr>, [ZoneGet (camera_id cam)])
           | Some (Some z) \<Rightarrow>
               (s\<lparr>existingZone := Some z, points := zone_points z,
                  threshold := zone_threshold z\<rparr>,
                [ZoneGet (camera_id cam)])))"

text \<open>
  \<open>handleCanvasClick\<close> at pointer position \<open>pos\<close>. With no image loaded, reading
  \<open>imageObj.width\<close> throws.
\<close>

definition handleCanvasClick :: "rat \<times> rat \<Rightarrow> zd_state \<Rightarrow> js_error + zd_state" where
  "handleCanvasClick pos s =
     (if \<not> isDrawing s then Inr s
      else
        (case imageObj s of
           None \<Rightarrow> Inl TypeError
         | Some img \<Rightarrow>
             (let scaleX = width img / width (dimensions s);
                  scaleY = height img / height (dimensions s);
                  scaledX = fst pos * scaleX;
                  scaledY = snd pos * scaleY
              in Inr (s\<lparr>points := points s @ [(scaledX, scaledY)]\<rparr>))))"

text \<open>
  \<open>handleSaveZone\<close>. The call \<open>loadExistingZone()\<close> is not awaited: its state updates
  land after \<open>setLoading(false)\<close>, on other state variables, so the final state is the
  one computed here.
\<close>

definition handleSaveZone :: "zone_api \<Rightarrow> zd_state \<Rightarrow> zd_state \<times> effect list" where
  "handleSaveZone api s =
     (if length (points s) < 3 then
        (s, [Alert ''Please draw at least 3 points to form a zone''])
      else
        (let s1 = s\<lparr>loading := True\<rparr> in
         case selectedCamera s1 of
           None \<Rightarrow>
             (s1\<lparr>loading := False\<rparr>,
              [ConsoleError ''Error saving zone:'', Alert ''Failed to save zone''])
         | Some cam \<Rightarrow>
             if zone_set_resolves api then
               (let (s2, loaded) = loadExistingZone api (s1\<lparr>isDrawing := False\<rparr>)
                in (s2\<lparr>loading := False\<rparr>,
                    [ZoneSet (camera_id cam) (points s1) (threshold s1),
                     Alert ''Zone saved successfully!''] @ loaded))
             else
               (s1\<lparr>loading := False\<rparr>,
                [ZoneSet (camera_id cam) (points s1) (threshold s1),
                 ConsoleError ''Error saving zone:'', Alert ''Failed to save zone''])))"

text \<open>\<open>getCanvasPoints\<close>\<close>

definition getCanvasPoints :: "zd_state \<Rightarrow> (rat \<times> rat) list" where
  "getCanvasPoints s =
     (case imageObj s of
        None \<Rightarrow> []
      | Some img \<Rightarrow>
          (let scaleX = width (dimensions s) / width img;
               scaleY = height (dimensions s) / height img
           in map (\<lambda>(x, y). (x * scaleX, y * scaleY)) (points s)))"

text \<open>
  The threshold field: \<^verbatim>\<open>onChange={(e) => setThreshold(parseFloat(e.target.value) / 100)}\<close>.
  The handler is given \<open>parseFloat(e.target.value)\<close>, which is \<open>NaN\<close> for the empty
  field. Dividing by the positive constant 100 keeps \<open>NaN\<close> and the infinities.
\<close>

definition divide_by_100 :: "js_number \<Rightarrow> js_number" where
  "divide_by_100 x = (case x of Num a \<Rightarrow> Num (a / 100) | other \<Rightarrow> other)"

definition threshold_onChange :: "js_number \<Rightarrow> zd_state \<Rightarrow> zd_state" where
  "threshold_onChange parsed s = s\<lparr>threshold := divide_by_100 parsed\<rparr>"

text \<open>A number in the closed interval from 0 to 1.\<close>

definition in_unit_interval :: "js_number \<Rightarrow> bool" where
  "in_unit_interval x = (case x of Num a \<Rightarrow> 0 \<le> a \<and> a \<le> 1 | other \<Rightarrow> False)"

text \<open>
  The initial state of the component with a camera selected, drawing switched on and a
  640 by 480 image shown at half size.
\<close>

definition sample_zone_state :: zd_state where
  "sample_zone_state =
     \<lparr>selectedCamera = Some \<lparr>camera_id = 1\<rparr>,
      imageObj = Some \<lparr>width = 640, height = 480\<rparr>,
      points = [],
      threshold = Num (3 / 10),
      isDrawing = True,
      existingZone = None,
      loading = False,
      dimensions = \<lparr>width = 320, height = 240\<rparr>\<rparr>"

section \<open>pages/CameraManager.jsx: the annotation tool\<close>

text \<open>
  A rectangle under the mouse (\<open>newBbox\<close>) and a committed box, which adds an index, the
  approval flag and the detector's confidence (null for a box drawn by hand).
\<close>

record rect =
  x1 :: rat
  y1 :: rat
  x2 :: rat
  y2 :: rat

record bbox = rect +
  bbox_id :: nat
  approved :: bool
  confidence :: "rat option"

text \<open>The state variables of \<open>AnnotationTool\<close> that \<open>handleMouseUp\<close> reads and writes.\<close>

record annotation_state =
  at_isDrawing :: bool
  at_newBbox :: "rect option"
  at_imageObj :: "size2d option"
  at_bboxes :: "bbox list"

definition handleMouseUp :: "annotation_state \<Rightarrow> annotation_state" where
  "handleMouseUp s =
     (if \<not> at_isDrawing s then s
      else
        (case at_newBbox s of
           None \<Rightarrow> s
         | Some newBbox \<Rightarrow>
             (case at_imageObj s of
                None \<Rightarrow> s
              | Some img \<Rightarrow>
                  (let minSize = 10;
                       w = \<bar>x2 newBbox - x1 newBbox\<bar>;
                       h = \<bar>y2 newBbox - y1 newBbox\<bar>;
                       s1 =
                         (if w > minSize \<and> h > minSize then
                            (let normalizedBbox =
                               \<lparr>x1 = min (x1 newBbox) (x2 newBbox),
                                y1 = min (y1 newBbox) (y2 newBbox),
                                x2 = max (x1 newBbox) (x2 newBbox),
                                y2 = max (y1 newBbox) (y2 newBbox),
                                bbox_id = length (at_bboxes s),
                                approved = True,
                                confidence = None\<rparr>
                             in s\<lparr>at_bboxes := at_bboxes s @ [normalizedBbox]\<rparr>)
                          else s)
                   in s1\<lparr>at_isDrawing := False, at_newBbox := None\<rparr>))))"

text \<open>A drag in progress from (120, 80) to the corner \<open>c\<close>, on a loaded image, no boxes yet.\<close>

definition sample_drag :: "rat \<times> rat \<Rightarrow> annotation_state" where
  "sample_drag c =
     \<lparr>at_isDrawing = True,
      at_newBbox = Some \<lparr>x1 = 120, y1 = 80, x2 = fst c, y2 = snd c\<rparr>,
      at_imageObj = Some \<lparr>width = 640, height = 480\<rparr>,
      at_bboxes = []\<rparr>"

section \<open>pages/Dashboard.jsx: processing all images\<close>

text \<open>The answers of the backend that \<open>processAllImages\<close> reads.\<close>

record camera_stats =
  labeled_count :: nat

record unlabeled_image =
  filename :: string

text \<open>
  What the world outside answers during one run: the confirm dialog, the two listing
  requests (\<open>None\<close>: the request fails; for the unlabeled listing the inner \<open>None\<close> is a
  response without \<open>images\<close>), whether the \<open>n\<close>-th process-image request (counted from 0)
  for a given image resolves, and the message of a failed listing request.
\<close>

record process_env =
  confirm_answer :: bool
  stats_response :: "camera_stats option"
  unlabeled_response :: "unlabeled_image list option option"
  process_resolves :: "nat \<Rightarrow> string \<Rightarrow> bool"
  error_message :: string

text \<open>
  \<open>processImageForDetection\<close>: the request is issued and awaited; a rejection is caught
  and logged, and the result says whether it resolved.
\<close>

definition processImageForDetection ::
  "process_env \<Rightarrow> camera \<Rightarrow> nat \<Rightarrow> string \<Rightarrow> bool \<times> effect list" where
  "processImageForDetection env cam n imageName =
     (if process_resolves env n imageName then
        (True, [ProcessImageIssued (camera_id cam) imageName,
                ProcessImageSettled (camera_id cam) imageName True])
      else
        (False, [ProcessImageIssued (camera_id cam) imageName,
                 ProcessImageSettled (camera_id cam) imageName False,
                 ConsoleError (''Error processing '' @ imageName @ '':'')]))"

text \<open>\<^verbatim>\<open>`${String(i).padStart(6, '0')}.jpg`\<close>\<close>

definition labeledImageName :: "nat \<Rightarrow> string" where
  "labeledImageName i = padStart (String i) 6 CHR ''0'' @ ''.jpg''"

text \<open>
  The loop over the labeled images, carrying \<open>processedCount\<close>, \<open>errorCount\<close> and the
  effects so far. Each iteration awaits its request before it goes on.
\<close>

function labeled_loop ::
  "process_env \<Rightarrow> camera \<Rightarrow> nat \<Rightarrow> nat \<Rightarrow> nat \<Rightarrow> nat \<times> nat \<times> effect list
     \<Rightarrow> nat \<times> nat \<times> effect list" where
  "labeled_loop env cam labeled totalImages i (processedCount, errorCount, effects) =
     (if i < labeled then
        (let imageName = labeledImageName i;
             (success, requested) =
               processImageForDetection env cam (processedCount + errorCount) imageName;
             progress =
               SetProcessProgress (i + 1) totalImages
                 (''Processing labeled images ('' @ String (i + 1) @ ''/'' @ String labeled
                    @ '')...'')
         in labeled_loop env cam labeled totalImages (i + 1)
              (if success then processedCount + 1 else processedCount,
               if success then errorCount else errorCount + 1,
               effects @ requested @ [progress]))
      else (processedCount, errorCount, effects))"
  by pat_completeness auto
termination
  by (relation "measure (\<lambda>(env, cam, labeled, totalImages, i, acc). labeled - i)") auto

declare labeled_loop.simps [simp del]

text \<open>The loop over the unlabeled images, in the order of the listing.\<close>

function unlabeled_loop ::
  "process_env \<Rightarrow> camera \<Rightarrow> nat \<Rightarrow> unlabeled_image list \<Rightarrow> nat \<Rightarrow> nat
     \<Rightarrow> nat \<times> nat \<times> effect list \<Rightarrow> nat \<times> nat \<times> effect list" where
  "unlabeled_loop env cam labeled unlabeledImages totalImages i
       (processedCount, errorCount, effects) =
     (if i < length unlabeledImages then
        (let imageName = filename (unlabeledImages ! i);
             (success, requested) =
               processImageForDetection env cam (processedCount + errorCount) imageName;
             progress =
               SetProcessProgress (labeled + i + 1) totalImages
                 (''Processing unlabeled images ('' @ String (i + 1) @ ''/''
                    @ String (length unlabeledImages) @ '')...'')
         in unlabeled_loop env cam labeled unlabeledImages totalImages (i + 1)
              (if success then processedCount + 1 else processedCount,
               if success then errorCount else errorCount + 1,
               effects @ requested @ [progress]))
      else (processedCount, errorCount, effects))"
  by pat_completeness auto
termination
  by (relation "measure (\<lambda>(env, cam, labeled, unlabeledImages, totalImages, i, acc).
        length unlabeledImages - i)") auto

declare unlabeled_loop.simps [simp del]

definition confirm_text :: string where
  "confirm_text = ''Process all images (labeled + unlabeled) to generate comprehensive analytics? This will reset existing logs. This may take a few minutes.''"

definition newline :: string where
  "newline = [CHR 0x0A]"

text \<open>
  \<open>processAllImages\<close>, as the effects of one run. The \<open>finally\<close> block runs on every
  path that entered the \<open>try\<close> block.
\<close>

definition processAllImages :: "process_env \<Rightarrow> camera option \<Rightarrow> effect list" where
  "processAllImages env selectedCam =
     (case selectedCam of
        None \<Rightarrow> []
      | Some cam \<Rightarrow>
          if \<not> confirm_answer env then [Confirm confirm_text]
          else
            (let started =
                   [Confirm confirm_text, SetProcessingImages True,
                    SetProcessProgress 0 0 ''Initializing...'', SetLogs_empty, SetStats_null];
                 failed =
                   [ConsoleError ''Error processing images:'',
                    Alert (''Failed to process images: '' @ error_message env)];
                 finally = [SetProcessingImages False, SetProcessProgress 0 0 '''']
             in
               case stats_response env of
                 None \<Rightarrow> started @ [CameraGetStats (camera_id cam)] @ failed @ finally
               | Some stats \<Rightarrow>
                   (case unlabeled_response env of
                      None \<Rightarrow>
                        started @ [CameraGetStats (camera_id cam),
                                   InferenceGetUnlabeled (camera_id cam)] @ failed @ finally
                    | Some images \<Rightarrow>
                        (let unlabeledImages = (case images of None \<Rightarrow> [] | Some l \<Rightarrow> l);
                             totalImages = labeled_count stats + length unlabeledImages;
                             fetched = started @ [CameraGetStats (camera_id cam),
                                                  InferenceGetUnlabeled (camera_id cam)]
                         in
                           if totalImages = 0 then
                             fetched @ [Alert ''No images found. Please upload images first.'',
                                        SetProcessingImages False] @ finally
                           else
                             (let (processedCount, errorCount, effects) =
                                    unlabeled_loop env cam (labeled_count stats) unlabeledImages
                                      totalImages 0
                                      (labeled_loop env cam (labeled_count stats) totalImages 0
                                         (0, 0,
                                          fetched @ [SetProcessProgress 0 totalImages
                                                       ''Processing images...'']));
                                  loading = effects @ [SetProcessProgress totalImages totalImages
                                                         ''Loading results...'']
                              in
                                (if processedCount > 0 then
                                   loading @
                                   [LoadDashboardData,
                                    Alert (''Successfully processed ALL '' @ String processedCount
                                      @ '' images! ''
                                      @ (if errorCount > 0
                                         then newline @ ''('' @ String errorCount @ '' failed)''
                                         else '''')
                                      @ newline @ newline @ ''Dashboard updated!'' @ newline @ newline
                                      @ ''Note: Chart shows max 50 aggregated points covering the entire time range.'')]
                                 else
                                   loading @
                                   [Alert ''No images were processed successfully. Check console for errors.''])
                                @ finally)))))"

text \<open>The image names of the process-image requests of a run, in the order issued.\<close>

fun process_requests :: "effect list \<Rightarrow> string list" where
  "process_requests [] = []"
| "process_requests (ProcessImageIssued c n # es) = n # process_requests es"
| "process_requests (e # es) = process_requests es"

text \<open>
  Following the request in flight through a run, starting with \<open>p\<close> in flight: the result
  is \<open>None\<close> when a request is issued while another is in flight, or when a request
  settles that is not the one in flight; otherwise it is the request left in flight.
\<close>

fun track_in_flight :: "string option \<Rightarrow> effect list \<Rightarrow> string option option" where
  "track_in_flight p [] = Some p"
| "track_in_flight p (ProcessImageIssued c n # es) =
     (if p = None then track_in_flight (Some n) es else None)"
| "track_in_flight p (ProcessImageSettled c n ok # es) =
     (if p = Some n then track_in_flight None es else None)"
| "track_in_flight p (e # es) = track_in_flight p es"

text \<open>
  A run over two labeled and two unlabeled images in which the second request fails.
\<close>

definition sample_env :: process_env where
  "sample_env =
     \<lparr>confirm_answer = True,
      stats_response = Some \<lparr>labeled_count = 2\<rparr>,
      unlabeled_response =
        Some (Some [\<lparr>filename = ''frame_a.jpg''\<rparr>, \<lparr>filename = ''frame_b.jpg''\<rparr>]),
      process_resolves = (\<lambda>n name. n \<noteq> 1),
      error_message = ''Network Error''\<rparr>"

section \<open>Properties of getImageURL\<close>

lemma image_path_prefixed: "prefix ''cameras/'' (image_path p)"
  by (simp add: image_path_def)

lemma image_path_idem: "image_path (image_path p) = image_path p"
  by (simp add: image_path_def)

text \<open>
  Claim C10. For every input path string, \<open>getImageURL\<close> returns the base URL, a slash
  and a path \<open>p\<close> that starts with \<open>cameras/\<close>; \<open>p\<close> is the input itself when the
  input already starts with \<open>cameras/\<close> and the input prefixed with \<open>cameras/\<close>
  otherwise; the prefixing rule is idempotent.
\<close>

theorem getImageURL_prefix_rule:
  "getImageURL env imagePath = API_BASE_URL env @ ''/'' @ image_path imagePath
   \<and> prefix ''cameras/'' (image_path imagePath)
   \<and> image_path imagePath =
       (if prefix ''cameras/'' imagePath then imagePath else ''cameras/'' @ imagePath)
   \<and> image_path (image_path imagePath) = image_path imagePath
   \<and> getImageURL env (image_path imagePath) = getImageURL env imagePath"
  by (simp add: getImageURL_def image_path_def)


section \<open>Properties of prepareChartData\<close>
















lemma round_nearest: "\<bar>of_int (round x) - x\<bar> \<le> (1 / 2 :: rat)"
  by (rule of_int_round_abs_le)










section \<open>Properties of the zone drawer\<close>

text \<open>
  Claim C4. When \<open>handleSaveZone\<close> runs with fewer than 3 polygon points, the
  configuration is rejected: the component state (points, threshold, existing zone and
  all the rest) is unchanged, no save request is issued, and the user is told so by an
  alert.
\<close>

theorem handleSaveZone_rejects_short:
  assumes "length (points s) < 3"
  shows "fst (handleSaveZone api s) = s
       \<and> snd (handleSaveZone api s) = [Alert ''Please draw at least 3 points to form a zone'']
       \<and> (\<forall>cam pts t. ZoneSet cam pts t \<notin> set (snd (handleSaveZone api s)))"
  using assms by (simp add: handleSaveZone_def)

theorem handleSaveZone_rejects_short_witness:
  "length (points (sample_zone_state\<lparr>points := [(0, 0), (10, 0)]\<rparr>)) < 3
   \<and> fst (handleSaveZone \<lparr>zone_set_resolves = True, zone_get_response = Some None\<rparr>
            (sample_zone_state\<lparr>points := [(0, 0), (10, 0)]\<rparr>))
       = sample_zone_state\<lparr>points := [(0, 0), (10, 0)]\<rparr>
   \<and> snd (handleSaveZone \<lparr>zone_set_resolves = True, zone_get_response = Some None\<rparr>
            (sample_zone_state\<lparr>points := [(0, 0), (10, 0)]\<rparr>))
       = [Alert ''Please draw at least 3 points to form a zone'']"
proof -
  have h: "length (points (sample_zone_state\<lparr>points := [(0, 0), (10, 0)]\<rparr>)) < 3"
    by simp
  from handleSaveZone_rejects_short [OF h] h show ?thesis by blast
qed

text \<open>
  For a parsed value between 0 and 100 the stored threshold lies between 0 and 1.
\<close>

lemma threshold_onChange_in_range:
  "0 \<le> a \<Longrightarrow> a \<le> 100 \<Longrightarrow> in_unit_interval (threshold (threshold_onChange (Num a) s))"
  by (simp add: threshold_onChange_def divide_by_100_def in_unit_interval_def)

text \<open>
  Claim C5 says that every threshold entered in the percentage field, and so every
  threshold that \<open>handleSaveZone\<close> submits, lies between 0 and 1. The handler does not
  bound the value: at the typed value 150 the state holds the threshold 3/2, which is
  outside the interval, and \<open>handleSaveZone\<close> submits it with a polygon of three points.
  An emptied field gives \<open>NaN\<close>.
\<close>

theorem threshold_onChange_out_of_range:
  "threshold (threshold_onChange (Num 150) sample_zone_state) = Num (3 / 2)
   \<and> \<not> in_unit_interval (threshold (threshold_onChange (Num 150) sample_zone_state))
   \<and> snd (handleSaveZone \<lparr>zone_set_resolves = True, zone_get_response = Some None\<rparr>
            (threshold_onChange (Num 150)
               (sample_zone_state\<lparr>points := [(0, 0), (10, 0), (10, 10)]\<rparr>)))
       = [ZoneSet 1 [(0, 0), (10, 0), (10, 10)] (Num (3 / 2)),
          Alert ''Zone saved successfully!'', ZoneGet 1]
   \<and> threshold (threshold_onChange NaN sample_zone_state) = NaN
   \<and> \<not> in_unit_interval (threshold (threshold_onChange NaN sample_zone_state))"
  by (simp add: threshold_onChange_def divide_by_100_def in_unit_interval_def
      sample_zone_state_def handleSaveZone_def loadExistingZone_def)

text \<open>
  Claim C8. Zone-point scaling round-trips in exact arithmetic: for every pointer
  position and all positive canvas and image dimensions, the point that
  \<open>handleCanvasClick\<close> stores is drawn by \<open>getCanvasPoints\<close> at the pointer position
  itself, after the points that were there before.
\<close>

theorem canvas_click_round_trip:
  assumes "isDrawing s" and "imageObj s = Some img"
    and "0 < width img" and "0 < height img"
    and "0 < width (dimensions s)" and "0 < height (dimensions s)"
  shows "\<exists>s'. handleCanvasClick pos s = Inr s'
             \<and> getCanvasPoints s' = getCanvasPoints s @ [pos]"
  using assms by (simp add: handleCanvasClick_def getCanvasPoints_def Let_def)

theorem canvas_click_round_trip_witness:
  "isDrawing sample_zone_state
   \<and> imageObj sample_zone_state = Some \<lparr>width = 640, height = 480\<rparr>
   \<and> (\<exists>s'. handleCanvasClick (100, 50) sample_zone_state = Inr s'
          \<and> points s' = [(200, 100)]
          \<and> getCanvasPoints s' = getCanvasPoints sample_zone_state @ [(100, 50)])"
proof -
  have a: "isDrawing sample_zone_state"
    and b: "imageObj sample_zone_state = Some \<lparr>width = 640, height = 480\<rparr>"
    and c: "0 < width \<lparr>width = 640, height = 480 :: rat\<rparr>"
    and d: "0 < height \<lparr>width = 640 :: rat, height = 480\<rparr>"
    and e: "0 < width (dimensions sample_zone_state)"
    and f: "0 < height (dimensions sample_zone_state)"
    by (simp_all add: sample_zone_state_def)
  obtain s' where g: "handleCanvasClick (100, 50) sample_zone_state = Inr s'"
    and h: "getCanvasPoints s' = getCanvasPoints sample_zone_state @ [(100, 50)]"
    using canvas_click_round_trip [OF a b c d e f, of "(100, 50)"] by blast
  from g have "points s' = [(200, 100)]"
    by (auto simp: handleCanvasClick_def sample_zone_state_def Let_def)
  with a b g h show ?thesis by blast
qed

section \<open>Properties of the annotation tool\<close>

text \<open>
  Claim C9. Every bounding box committed by \<open>handleMouseUp\<close> is normalized and
  non-degenerate: the handler either leaves the list of boxes as it is or appends one box
  with \<open>x1 < x2\<close> and \<open>y1 < y2\<close>, wider and higher than 10 pixels; and a drag whose width
  or height is 10 pixels or less adds no box.
\<close>

theorem handleMouseUp_commits_normalized:
  "(at_bboxes (handleMouseUp s) = at_bboxes s
    \<or> (\<exists>b. at_bboxes (handleMouseUp s) = at_bboxes s @ [b]
           \<and> x1 b < x2 b \<and> y1 b < y2 b
           \<and> 10 < x2 b - x1 b \<and> 10 < y2 b - y1 b))
   \<and> (\<forall>d. at_newBbox s = Some d \<and> (\<bar>x2 d - x1 d\<bar> \<le> 10 \<or> \<bar>y2 d - y1 d\<bar> \<le> 10)
          \<longrightarrow> at_bboxes (handleMouseUp s) = at_bboxes s)"
  by (auto simp: handleMouseUp_def Let_def split: option.splits)

text \<open>
  A drag from (120, 80) up and to the left to (60, 20) commits the box with corners
  (60, 20) and (120, 80); a drag to (125, 200), only 5 pixels wide, commits nothing.
\<close>

theorem handleMouseUp_commits_normalized_witness:
  "at_bboxes (handleMouseUp (sample_drag (60, 20)))
     = [\<lparr>x1 = 60, y1 = 20, x2 = 120, y2 = 80, bbox_id = 0, approved = True, confidence = None\<rparr>]
   \<and> at_newBbox (sample_drag (125, 200)) = Some \<lparr>x1 = 120, y1 = 80, x2 = 125, y2 = 200\<rparr>
   \<and> at_bboxes (handleMouseUp (sample_drag (125, 200))) = at_bboxes (sample_drag (125, 200))"
proof -
  let ?d = "\<lparr>x1 = 120, y1 = 80, x2 = 125, y2 = 200 :: rat\<rparr>"
  have a: "at_newBbox (sample_drag (125, 200)) = Some ?d"
    by (simp add: sample_drag_def)
  have b: "\<bar>x2 ?d - x1 ?d\<bar> \<le> 10 \<or> \<bar>y2 ?d - y1 ?d\<bar> \<le> 10"
    by simp
  have "at_bboxes (handleMouseUp (sample_drag (125, 200))) = at_bboxes (sample_drag (125, 200))"
    using handleMouseUp_commits_normalized [of "sample_drag (125, 200)"] a b by blast
  moreover have "at_bboxes (handleMouseUp (sample_drag (60, 20)))
     = [\<lparr>x1 = 60, y1 = 20, x2 = 120, y2 = 80, bbox_id = 0, approved = True, confidence = None\<rparr>]"
    by (simp add: handleMouseUp_def sample_drag_def Let_def)
  ultimately show ?thesis using a by blast
qed

section \<open>Properties of processAllImages\<close>

lemma process_requests_append:
  "process_requests (a @ b) = process_requests a @ process_requests b"
  by (induction a rule: process_requests.induct) simp_all

lemma track_in_flight_append:
  "track_in_flight p (a @ b) =
     (case track_in_flight p a of None \<Rightarrow> None | Some q \<Rightarrow> track_in_flight q b)"
  by (induction p a rule: track_in_flight.induct) simp_all


lemma processImageForDetection_requests:
  "process_requests (snd (processImageForDetection env cam n name)) = [name]"
  by (simp add: processImageForDetection_def)

lemma processImageForDetection_track:
  "track_in_flight None (snd (processImageForDetection env cam n name)) = Some None"
  by (simp add: processImageForDetection_def)

lemma labeled_loop_requests:
  "process_requests (snd (snd (labeled_loop env cam labeled tot i (pc, ec, effs))))
     = process_requests effs @ map labeledImageName [i..<labeled]"
proof (induction env cam labeled tot i "(pc, ec, effs)" arbitrary: pc ec effs
    rule: labeled_loop.induct)
  case (1 env cam labeled totalImages i processedCount errorCount effects)
  show ?case
  proof (cases "i < labeled")
    case False
    then show ?thesis by (simp add: labeled_loop.simps)
  next
    case True
    obtain success requested where
      r: "processImageForDetection env cam (processedCount + errorCount) (labeledImageName i)
            = (success, requested)"
      by (cases "processImageForDetection env cam (processedCount + errorCount) (labeledImageName i)")
    have q: "process_requests requested = [labeledImageName i]"
      using processImageForDetection_requests
        [of env cam "processedCount + errorCount" "labeledImageName i"] r by simp
    show ?thesis
      using True r q "1.hyps" [OF True refl r [symmetric] refl refl]
      by (subst labeled_loop.simps)
         (simp add: process_requests_append upt_conv_Cons)
  qed
qed


lemma labeled_loop_track:
  "track_in_flight None effs = Some None \<Longrightarrow>
   track_in_flight None (snd (snd (labeled_loop env cam labeled tot i (pc, ec, effs))))
     = Some None"
proof (induction env cam labeled tot i "(pc, ec, effs)" arbitrary: pc ec effs
    rule: labeled_loop.induct)
  case (1 env cam labeled totalImages i processedCount errorCount effects)
  show ?case
  proof (cases "i < labeled")
    case False
    then show ?thesis using "1.prems" by (simp add: labeled_loop.simps)
  next
    case True
    obtain success requested where
      r: "processImageForDetection env cam (processedCount + errorCount) (labeledImageName i)
            = (success, requested)"
      by (cases "processImageForDetection env cam (processedCount + errorCount) (labeledImageName i)")
    have q: "track_in_flight None requested = Some None"
      using processImageForDetection_track
        [of env cam "processedCount + errorCount" "labeledImageName i"] r by simp
    have "track_in_flight None
        (effects @ requested @
          [SetProcessProgress (i + 1) totalImages
            (''Processing labeled images ('' @ String (i + 1) @ ''/'' @ String labeled
               @ '')...'')]) = Some None"
      using "1.prems" q by (simp add: track_in_flight_append)
    then show ?thesis
      using True r "1.hyps" [OF True refl r [symmetric] refl refl]
      by (subst labeled_loop.simps) simp
  qed
qed

lemma unlabeled_loop_requests:
  "process_requests (snd (snd (unlabeled_loop env cam labeled imgs tot i (pc, ec, effs))))
     = process_requests effs @ map filename (drop i imgs)"
proof (induction env cam labeled imgs tot i "(pc, ec, effs)" arbitrary: pc ec effs
    rule: unlabeled_loop.induct)
  case (1 env cam labeled unlabeledImages totalImages i processedCount errorCount effects)
  show ?case
  proof (cases "i < length unlabeledImages")
    case False
    then show ?thesis by (simp add: unlabeled_loop.simps)
  next
    case True
    obtain success requested where
      r: "processImageForDetection env cam (processedCount + errorCount)
            (filename (unlabeledImages ! i)) = (success, requested)"
      by (cases "processImageForDetection env cam (processedCount + errorCount)
            (filename (unlabeledImages ! i))")
    have q: "process_requests requested = [filename (unlabeledImages ! i)]"
      using processImageForDetection_requests
        [of env cam "processedCount + errorCount" "filename (unlabeledImages ! i)"] r by simp
    have d: "drop i unlabeledImages = unlabeledImages ! i # drop (Suc i) unlabeledImages"
      using True by (simp add: Cons_nth_drop_Suc)
    show ?thesis
      using True r q d "1.hyps" [OF True refl r [symmetric] refl refl]
      by (subst unlabeled_loop.simps) (simp add: process_requests_append)
  qed
qed

lemma unlabeled_loop_track:
  "track_in_flight None effs = Some None \<Longrightarrow>
   track_in_flight None (snd (snd (unlabeled_loop env cam labeled imgs tot i (pc, ec, effs))))
     = Some None"
proof (induction env cam labeled imgs tot i "(pc, ec, effs)" arbitrary: pc ec effs
    rule: unlabeled_loop.induct)
  case (1 env cam labeled unlabeledImages totalImages i processedCount errorCount effects)
  show ?case
  proof (cases "i < length unlabeledImages")
    case False
    then show ?thesis using "1.prems" by (simp add: unlabeled_loop.simps)
  next
    case True
    obtain success requested where
      r: "processImageForDetection env cam (processedCount + errorCount)
            (filename (unlabeledImages ! i)) = (success, requested)"
      by (cases "processImageForDetection env cam (processedCount + errorCount)
            (filename (unlabeledImages ! i))")
    have q: "track_in_flight None requested = Some None"
      using processImageForDetection_track
        [of env cam "processedCount + errorCount" "filename (unlabeledImages ! i)"] r by simp
    have "track_in_flight None
        (effects @ requested @
          [SetProcessProgress (labeled + i + 1) totalImages
            (''Processing unlabeled images ('' @ String (i + 1) @ ''/''
               @ String (length unlabeledImages) @ '')...'')]) = Some None"
      using "1.prems" q by (simp add: track_in_flight_append)
    then show ?thesis
      using True r "1.hyps" [OF True refl r [symmetric] refl refl]
      by (subst unlabeled_loop.simps) simp
  qed
qed

text \<open>Both loops, one after the other, as \<open>processAllImages\<close> runs them.\<close>

lemma loops_requests:
  assumes "unlabeled_loop env cam labeled imgs tot 0
             (labeled_loop env cam labeled tot 0 (0, 0, effs)) = (pc, ec, out)"
  shows "process_requests out
           = process_requests effs @ map labeledImageName [0..<labeled] @ map filename imgs"
proof -
  obtain pc1 ec1 mid where l: "labeled_loop env cam labeled tot 0 (0, 0, effs) = (pc1, ec1, mid)"
    by (cases "labeled_loop env cam labeled tot 0 (0, 0, effs)")
  have "process_requests mid = process_requests effs @ map labeledImageName [0..<labeled]"
    using labeled_loop_requests [of env cam labeled tot 0 0 0 effs] l by simp
  moreover have "process_requests out = process_requests mid @ map filename (drop 0 imgs)"
    using unlabeled_loop_requests [of env cam labeled imgs tot 0 pc1 ec1 mid] assms l by simp
  ultimately show ?thesis by simp
qed

lemma loops_track:
  assumes "unlabeled_loop env cam labeled imgs tot 0
             (labeled_loop env cam labeled tot 0 (0, 0, effs)) = (pc, ec, out)"
    and "track_in_flight None effs = Some None"
  shows "track_in_flight None out = Some None"
proof -
  obtain pc1 ec1 mid where l: "labeled_loop env cam labeled tot 0 (0, 0, effs) = (pc1, ec1, mid)"
    by (cases "labeled_loop env cam labeled tot 0 (0, 0, effs)")
  have "track_in_flight None mid = Some None"
    using labeled_loop_track [OF assms(2), of env cam labeled tot 0 0 0] l by simp
  then show ?thesis
    using unlabeled_loop_track [of mid env cam labeled imgs tot 0 pc1 ec1] assms(1) l by simp
qed


lemma processAllImages_run:
  assumes "selectedCam = Some cam" and "confirm_answer env"
    and "stats_response env = Some st" and "unlabeled_response env = Some images"
  shows "track_in_flight None (processAllImages env selectedCam) = Some None
       \<and> process_requests (processAllImages env selectedCam)
           = map labeledImageName [0..<labeled_count st]
             @ map filename (case images of None \<Rightarrow> [] | Some l \<Rightarrow> l)"
proof -
  let ?imgs = "case images of None \<Rightarrow> [] | Some l \<Rightarrow> l"
  let ?tot = "labeled_count st + length ?imgs"
  let ?fetched = "[Confirm confirm_text, SetProcessingImages True,
      SetProcessProgress 0 0 ''Initializing...'', SetLogs_empty, SetStats_null,
      CameraGetStats (camera_id cam), InferenceGetUnlabeled (camera_id cam),
      SetProcessProgress 0 ?tot ''Processing images...'']"
  show ?thesis
  proof (cases "?tot = 0")
    case True
    then show ?thesis using assms by (simp add: processAllImages_def Let_def)
  next
    case False
    obtain pc ec out where
      l: "unlabeled_loop env cam (labeled_count st) ?imgs ?tot 0
            (labeled_loop env cam (labeled_count st) ?tot 0 (0, 0, ?fetched)) = (pc, ec, out)"
      by (cases "unlabeled_loop env cam (labeled_count st) ?imgs ?tot 0
            (labeled_loop env cam (labeled_count st) ?tot 0 (0, 0, ?fetched))")
    have t: "track_in_flight None out = Some None"
      using loops_track [OF l] by simp
    have r: "process_requests out
        = map labeledImageName [0..<labeled_count st] @ map filename ?imgs"
      using loops_requests [OF l] by simp
    show ?thesis
      using assms False l t r
      by (simp add: processAllImages_def Let_def track_in_flight_append process_requests_append)
  qed
qed

text \<open>
  Claim C7. \<open>processAllImages\<close> processes a camera's frames strictly in sequence and in
  a fixed order: on every run no process-image request is issued while another is in
  flight, and every request has settled at the end; on a run that gets its two listings
  the requests are the labeled images \<open>000000.jpg\<close>, \<open>000001.jpg\<close>, ... in ascending
  index order, then the unlabeled images in the order of the listing.
\<close>

theorem processAllImages_sequential:
  "track_in_flight None (processAllImages env selectedCam) = Some None
   \<and> (\<forall>cam st images.
         selectedCam = Some cam \<and> confirm_answer env
         \<and> stats_response env = Some st \<and> unlabeled_response env = Some images
       \<longrightarrow> process_requests (processAllImages env selectedCam)
             = map labeledImageName [0..<labeled_count st]
               @ map filename (case images of None \<Rightarrow> [] | Some l \<Rightarrow> l))"
proof (intro conjI allI impI)
  show "track_in_flight None (processAllImages env selectedCam) = Some None"
  proof (cases selectedCam)
    case None
    then show ?thesis by (simp add: processAllImages_def)
  next
    case (Some cam)
    show ?thesis
    proof (cases "confirm_answer env")
      case False
      then show ?thesis using Some by (simp add: processAllImages_def)
    next
      case True
      show ?thesis
      proof (cases "stats_response env")
        case None
        then show ?thesis using Some True by (simp add: processAllImages_def Let_def)
      next
        case st: (Some st)
        show ?thesis
        proof (cases "unlabeled_response env")
          case None
          then show ?thesis using Some True st by (simp add: processAllImages_def Let_def)
        next
          case im: (Some images)
          show ?thesis using processAllImages_run [OF Some True st im] by simp
        qed
      qed
    qed
  qed
next
  fix cam st images
  assume "selectedCam = Some cam \<and> confirm_answer env
         \<and> stats_response env = Some st \<and> unlabeled_response env = Some images"
  then show "process_requests (processAllImages env selectedCam)
             = map labeledImageName [0..<labeled_count st]
               @ map filename (case images of None \<Rightarrow> [] | Some l \<Rightarrow> l)"
    using processAllImages_run by blast
qed

theorem processAllImages_sequential_witness:
  "confirm_answer sample_env
   \<and> stats_response sample_env = Some \<lparr>labeled_count = 2\<rparr>
   \<and> process_requests (processAllImages sample_env (Some \<lparr>camera_id = 7\<rparr>))
       = [''000000.jpg'', ''000001.jpg'', ''frame_a.jpg'', ''frame_b.jpg'']
   \<and> track_in_flight None (processAllImages sample_env (Some \<lparr>camera_id = 7\<rparr>)) = Some None"
proof -
  have a: "confirm_answer sample_env"
    and b: "stats_response sample_env = Some \<lparr>labeled_count = 2\<rparr>"
    and c: "unlabeled_response sample_env =
        Some (Some [\<lparr>filename = ''frame_a.jpg''\<rparr>, \<lparr>filename = ''frame_b.jpg''\<rparr>])"
    by (simp_all add: sample_env_def)
  have n: "map labeledImageName [0..<2] = [''000000.jpg'', ''000001.jpg'']"
    by code_simp
  from processAllImages_sequential [of sample_env "Some \<lparr>camera_id = 7\<rparr>"] a b c
  have "track_in_flight None (processAllImages sample_env (Some \<lparr>camera_id = 7\<rparr>)) = Some None"
    and "process_requests (processAllImages sample_env (Some \<lparr>camera_id = 7\<rparr>))
       = map labeledImageName [0..<labeled_count \<lparr>labeled_count = 2\<rparr>]
         @ map filename [\<lparr>filename = ''frame_a.jpg''\<rparr>, \<lparr>filename = ''frame_b.jpg''\<rparr>]"
    by auto
  with a b n show ?thesis by simp
qed

end
